theory Spec2Isabelle
  imports Main "HOL-Library.Multiset"
begin

section \<open>The password generator of app_senhas_gui.py\<close>

text \<open>
  The theory embeds the two functions \<^verbatim>\<open>gerar_senha\<close> and \<^verbatim>\<open>gerar_lista\<close> of
  \<^verbatim>\<open>app_senhas_gui.py\<close> together with the constants they read.

  \<^item> Python's unbounded integers are \<open>int\<close>; a Python \<^verbatim>\<open>str\<close> is a \<open>string\<close>. The
    passwords are ASCII. The messages of the exceptions hold accented letters, which are
    written as their UTF-8 bytes.
  \<^item> \<^verbatim>\<open>raise ValueError(msg)\<close> is the value \<open>Inl (ValueError msg)\<close>.
  \<^item> The operating system's random source is a tape of draws \<open>t :: nat \<Rightarrow> nat\<close>, given
    by the environment, and the state threaded through the code is the number \<open>p\<close> of
    draws consumed so far. Every function returns its result with the new position.
  \<^item> The loop that collects unique passwords has no bound in the source, hence it is a
    \<^theory_text>\<open>partial_function\<close> in the option monad: \<open>None\<close> is a run that never returns.
\<close>

subsection \<open>Configuration\<close>

definition digits :: string where
  "digits = ''0123456789''"

definition ascii_uppercase :: string where
  "ascii_uppercase = ''ABCDEFGHIJKLMNOPQRSTUVWXYZ''"

definition ascii_lowercase :: string where
  "ascii_lowercase = ''abcdefghijklmnopqrstuvwxyz''"

definition CHARSET :: string where
  "CHARSET = digits @ ascii_uppercase @ ascii_lowercase"

definition MIN_LENGTH :: int where
  "MIN_LENGTH = 1"

definition MAX_LENGTH :: int where
  "MAX_LENGTH = 64"

text \<open>
  The default of the parameter \<^verbatim>\<open>length\<close>. A default is filled in by the caller, so the
  functions below take every parameter explicitly.
\<close>

definition DEFAULT_LENGTH :: int where
  "DEFAULT_LENGTH = 5"

subsection \<open>The random source\<close>

type_synonym tape = "nat \<Rightarrow> nat"

text \<open>
  \<^verbatim>\<open>_randbelow(n)\<close> returns an index below \<open>n\<close>. The draw at the current position is
  reduced modulo \<open>n\<close>, so that exactly the indices below \<open>n\<close> can come out, each of
  them on some tape.
\<close>

definition randbelow :: "tape \<Rightarrow> nat \<Rightarrow> nat \<Rightarrow> nat \<times> nat" where
  "randbelow t n p = (t p mod n, Suc p)"

text \<open>
  \<^verbatim>\<open>secrets.choice(seq)\<close> is \<^verbatim>\<open>seq[_randbelow(len(seq))]\<close>. It raises IndexError on an
  empty sequence; the program calls it on the four non-empty constants above only.
\<close>

definition choice :: "tape \<Rightarrow> 'a list \<Rightarrow> nat \<Rightarrow> 'a \<times> nat" where
  "choice t seq p = (case randbelow t (length seq) p of (i, p') \<Rightarrow> (seq ! i, p'))"

text \<open>
  \<^verbatim>\<open>sysrand.shuffle(x)\<close> is the loop
  \<^verbatim>\<open>for i in reversed(range(1, len(x))): j = randbelow(i + 1); x[i], x[j] = x[j], x[i]\<close>.
  \<open>shuffle_from t i x p\<close> runs it from index \<open>i\<close> down to 1.
\<close>

fun shuffle_from :: "tape \<Rightarrow> nat \<Rightarrow> 'a list \<Rightarrow> nat \<Rightarrow> 'a list \<times> nat" where
  "shuffle_from t 0 x p = (x, p)"
| "shuffle_from t (Suc i) x p =
     (case randbelow t (Suc i + 1) p of
        (j, p') \<Rightarrow> shuffle_from t i (x[Suc i := x ! j, j := x ! Suc i]) p')"

definition shuffle :: "tape \<Rightarrow> 'a list \<Rightarrow> nat \<Rightarrow> 'a list \<times> nat" where
  "shuffle t x p = shuffle_from t (length x - 1) x p"

subsection \<open>Error messages\<close>

datatype error = ValueError string

definition digito :: "nat \<Rightarrow> char" where
  "digito d = ''0123456789'' ! d"

fun str_nat :: "nat \<Rightarrow> string" where
  "str_nat n = (if n < 10 then [digito n] else str_nat (n div 10) @ [digito (n mod 10)])"

declare str_nat.simps [simp del]

text \<open>The decimal text that an f-string puts in place of an integer.\<close>

definition str_int :: "int \<Rightarrow> string" where
  "str_int i = (if i < 0 then CHR ''-'' # str_nat (nat (- i)) else str_nat (nat i))"

definition msg_quantidade :: string where
  "msg_quantidade = ''Informe uma quantidade entre 1 e 10.000.''"

definition msg_comprimento :: string where
  "msg_comprimento =
     ''Comprimento inv'' @ [CHR 0xC3, CHR 0xA1] @ ''lido. Use entre '' @ str_int MIN_LENGTH
     @ '' e '' @ str_int MAX_LENGTH @ ''.''"

definition msg_composicao :: string where
  "msg_composicao =
     ''Para exigir composi'' @ [CHR 0xC3, CHR 0xA7, CHR 0xC3, CHR 0xA3] @ ''o m''
     @ [CHR 0xC3, CHR 0xAD] @ ''nima, use comprimento '' @ [CHR 0xE2, CHR 0x89, CHR 0xA5]
     @ '' 3.''"

definition msg_unicas :: "int \<Rightarrow> int \<Rightarrow> int \<Rightarrow> string" where
  "msg_unicas qtd total_combinacoes len =
     ''Voc'' @ [CHR 0xC3, CHR 0xAA] @ '' solicitou '' @ str_int qtd @ '' senhas ''
     @ [CHR 0xC3, CHR 0xBA] @ ''nicas, mas s'' @ [CHR 0xC3, CHR 0xB3] @ '' existem ''
     @ str_int total_combinacoes @ '' combina'' @ [CHR 0xC3, CHR 0xA7, CHR 0xC3, CHR 0xB5]
     @ ''es poss'' @ [CHR 0xC3, CHR 0xAD] @ ''veis para comprimento '' @ str_int len
     @ ''. Reduza a quantidade ou aumente o comprimento.''"

subsection \<open>gerar\_senha\<close>

text \<open>
  \<^verbatim>\<open>''.join(secrets.choice(CHARSET) for _ in range(length))\<close>: \<open>n\<close> draws from \<open>seq\<close>,
  in order.
\<close>

fun escolhas :: "tape \<Rightarrow> 'a list \<Rightarrow> nat \<Rightarrow> nat \<Rightarrow> 'a list \<times> nat" where
  "escolhas t seq 0 p = ([], p)"
| "escolhas t seq (Suc n) p =
     (case choice t seq p of
        (c, p') \<Rightarrow> (case escolhas t seq n p' of (cs, p'') \<Rightarrow> (c # cs, p'')))"

text \<open>
  \<^verbatim>\<open>while len(partes) < length: partes.append(secrets.choice(CHARSET))\<close>. The parameter
  \<^verbatim>\<open>length\<close> of the source is \<open>len\<close> here.
\<close>

function completa :: "tape \<Rightarrow> int \<Rightarrow> string \<Rightarrow> nat \<Rightarrow> string \<times> nat" where
  "completa t len partes p =
     (if int (length partes) < len
      then (case choice t CHARSET p of (c, p') \<Rightarrow> completa t len (partes @ [c]) p')
      else (partes, p))"
  by pat_completeness auto
termination
  by (relation "measure (\<lambda>(t, len, partes, p). nat (len - int (length partes)))") auto

declare completa.simps [simp del]

definition gerar_senha :: "tape \<Rightarrow> int \<Rightarrow> bool \<Rightarrow> nat \<Rightarrow> (error + string) \<times> nat" where
  "gerar_senha t len require_all p =
     (if len < MIN_LENGTH \<or> len > MAX_LENGTH then (Inl (ValueError msg_comprimento), p)
      else if require_all \<and> len < 3 then (Inl (ValueError msg_composicao), p)
      else if \<not> require_all then
        (case escolhas t CHARSET (nat len) p of (cs, p') \<Rightarrow> (Inr cs, p'))
      else
        (case choice t digits p of (d, p1) \<Rightarrow>
         case choice t ascii_uppercase p1 of (u, p2) \<Rightarrow>
         case choice t ascii_lowercase p2 of (l, p3) \<Rightarrow>
         case completa t len [d, u, l] p3 of (partes, p4) \<Rightarrow>
         case shuffle t partes p4 of (partes', p5) \<Rightarrow> (Inr partes', p5)))"

subsection \<open>gerar\_lista\<close>

text \<open>
  \<^verbatim>\<open>[gerar_senha(length=length, require_all=require_all) for _ in range(qtd)]\<close>: an
  exception of a call leaves the comprehension.
\<close>

fun lista_senhas :: "tape \<Rightarrow> int \<Rightarrow> bool \<Rightarrow> nat \<Rightarrow> nat \<Rightarrow> (error + string list) \<times> nat" where
  "lista_senhas t len require_all 0 p = (Inr [], p)"
| "lista_senhas t len require_all (Suc n) p =
     (case gerar_senha t len require_all p of
        (Inl e, p') \<Rightarrow> (Inl e, p')
      | (Inr s, p') \<Rightarrow>
          (case lista_senhas t len require_all n p' of
             (Inl e, p'') \<Rightarrow> (Inl e, p'')
           | (Inr ss, p'') \<Rightarrow> (Inr (s # ss), p'')))"

text \<open>
  \<^verbatim>\<open>while len(senhas) < qtd: senhas.add(gerar_senha(...))\<close> on the Python set
  \<open>senhas\<close>.
\<close>

partial_function (option) unicas ::
  "tape \<Rightarrow> int \<Rightarrow> int \<Rightarrow> bool \<Rightarrow> string set \<Rightarrow> nat \<Rightarrow> ((error + string set) \<times> nat) option"
where
  [code]: "unicas t qtd len require_all senhas p =
     (if int (card senhas) < qtd then
        (case gerar_senha t len require_all p of
           (Inl e, p') \<Rightarrow> Some (Inl e, p')
         | (Inr s, p') \<Rightarrow> unicas t qtd len require_all (insert s senhas) p')
      else Some (Inr senhas, p))"

text \<open>
  The value returned: the list of the comprehension, in the order of generation, or
  \<^verbatim>\<open>list(senhas)\<close>. The latter lists the elements of the set in the order of its hash
  table, which the program does not determine, so the set itself stands for it.
\<close>

datatype senhas = Lista "string list" | ListaDoConjunto "string set"

definition total_combinacoes :: "int \<Rightarrow> int" where
  "total_combinacoes len = int (length CHARSET) ^ nat len"

definition gerar_lista ::
  "tape \<Rightarrow> int \<Rightarrow> int \<Rightarrow> bool \<Rightarrow> bool \<Rightarrow> nat \<Rightarrow> ((error + senhas) \<times> nat) option"
where
  "gerar_lista t qtd len unique require_all p =
     (if qtd < 1 \<or> qtd > 10000 then Some (Inl (ValueError msg_quantidade), p)
      else if len < MIN_LENGTH \<or> len > MAX_LENGTH then Some (Inl (ValueError msg_comprimento), p)
      else if require_all \<and> len < 3 then Some (Inl (ValueError msg_composicao), p)
      else if unique \<and> qtd > total_combinacoes len then
        Some (Inl (ValueError (msg_unicas qtd (total_combinacoes len) len)), p)
      else if \<not> unique then
        (case lista_senhas t len require_all (nat qtd) p of
           (Inl e, p') \<Rightarrow> Some (Inl e, p')
         | (Inr ss, p') \<Rightarrow> Some (Inr (Lista ss), p'))
      else
        (case unicas t qtd len require_all {} p of
           None \<Rightarrow> None
         | Some (Inl e, p') \<Rightarrow> Some (Inl e, p')
         | Some (Inr s, p') \<Rightarrow> Some (Inr (ListaDoConjunto s), p')))"

subsection \<open>Notions used in the statements\<close>

text \<open>
  The number of draws that one call of \<open>gerar_senha\<close> consumes on a valid request: one per
  character, and with \<open>require_all\<close> one more per step of the shuffle.
\<close>

definition sorteios :: "int \<Rightarrow> bool \<Rightarrow> nat" where
  "sorteios len require_all = (if require_all then 2 * nat len - 1 else nat len)"

text \<open>
  The password of the \<open>k\<close>-th call of \<open>gerar_senha\<close> in a batch that starts at position
  \<open>p\<close> of the tape.
\<close>

definition senha_k :: "tape \<Rightarrow> int \<Rightarrow> bool \<Rightarrow> nat \<Rightarrow> nat \<Rightarrow> string" where
  "senha_k t len require_all p k =
     projr (fst (gerar_senha t len require_all (p + k * sorteios len require_all)))"

text \<open>
  What is expected of one password: its length, its alphabet, and one character of each
  class where the classes are required.
\<close>

definition senha_ok :: "int \<Rightarrow> bool \<Rightarrow> string \<Rightarrow> bool" where
  "senha_ok len require_all s \<longleftrightarrow>
     int (length s) = len \<and> set s \<subseteq> set CHARSET \<and>
     (require_all \<longrightarrow>
        (\<exists>c \<in> set s. c \<in> set digits) \<and> (\<exists>c \<in> set s. c \<in> set ascii_uppercase) \<and>
        (\<exists>c \<in> set s. c \<in> set ascii_lowercase))"

text \<open>
  The number that a decimal text denotes: the digits from left to right, after an optional
  minus sign. It reads back what \<open>str_int\<close> prints.
\<close>

definition valor_decimal :: "string \<Rightarrow> nat" where
  "valor_decimal s = foldl (\<lambda>a c. 10 * a + (of_char c - 48)) 0 s"

definition valor_int :: "string \<Rightarrow> int" where
  "valor_int s =
     (case s of
        [] \<Rightarrow> 0
      | c # r \<Rightarrow> if c = CHR ''-'' then - int (valor_decimal r) else int (valor_decimal s))"

text \<open>The list \<open>partes\<close> of \<open>gerar_senha\<close> when the shuffle begins.\<close>

definition partes_iniciais :: "tape \<Rightarrow> int \<Rightarrow> nat \<Rightarrow> string" where
  "partes_iniciais t len p =
     [digits ! (t p mod 10), ascii_uppercase ! (t (p + 1) mod 26), ascii_lowercase ! (t (p + 2) mod 26)]
     @ map (\<lambda>k. CHARSET ! (t (p + 3 + k) mod 62)) [0..<nat len - 3]"

subsection \<open>Particular tapes\<close>

text \<open>The source that returns the same draw forever.\<close>

definition constante :: "nat \<Rightarrow> tape" where
  "constante c i = c"






section \<open>Properties of the building blocks\<close>

subsection \<open>The alphabet\<close>

lemma length_digits: "length digits = 10" by (simp add: digits_def)

lemma length_ascii_uppercase: "length ascii_uppercase = 26" by (simp add: ascii_uppercase_def)

lemma length_ascii_lowercase: "length ascii_lowercase = 26" by (simp add: ascii_lowercase_def)

lemma length_CHARSET: "length CHARSET = 62"
  by (simp add: CHARSET_def length_digits length_ascii_uppercase length_ascii_lowercase)

lemma distinct_CHARSET: "distinct CHARSET"
  by (simp add: CHARSET_def digits_def ascii_uppercase_def ascii_lowercase_def)

subsection \<open>Draws, padding and shuffle\<close>

lemma choice_snd: "snd (choice t seq p) = Suc p" by (simp add: choice_def randbelow_def)

lemma choice_mem: "seq \<noteq> [] \<Longrightarrow> fst (choice t seq p) \<in> set seq"
  by (simp add: choice_def randbelow_def)

lemma escolhas_eq: "escolhas t seq n p = (map (\<lambda>k. seq ! (t (p + k) mod length seq)) [0..<n], p + n)"
proof (induction n arbitrary: p)
  case 0 show ?case by simp
next
  case (Suc n)
  have "map (\<lambda>k. seq ! (t (p + k) mod length seq)) [0..<Suc n]
     = seq ! (t p mod length seq) # map (\<lambda>k. seq ! (t (Suc p + k) mod length seq)) [0..<n]"
    by (simp add: upt_conv_Cons map_Suc_upt [symmetric] del: upt_Suc)
  then show ?case by (simp add: Suc choice_def randbelow_def del: upt_Suc)
qed

lemma completa_eq:
  "completa t len partes p =
     (partes @ map (\<lambda>k. CHARSET ! (t (p + k) mod length CHARSET)) [0..<nat len - length partes],
      p + (nat len - length partes))"
proof (induction t len partes p rule: completa.induct)
  case (1 t len partes p)
  show ?case
  proof (cases "int (length partes) < len")
    case False
    then have "nat len - length partes = 0" by simp
    with False show ?thesis by (simp add: completa.simps [of t len partes p])
  next
    case True
    then obtain m where m: "nat len - length partes = Suc m" 
      by (cases "nat len - length partes") auto
    then have m': "nat len - Suc (length partes) = m" by simp
    have ch: "choice t CHARSET p = (CHARSET ! (t p mod length CHARSET), Suc p)"
      by (simp add: choice_def randbelow_def)
    have "map (\<lambda>k. CHARSET ! (t (p + k) mod length CHARSET)) [0..<Suc m]
       = CHARSET ! (t p mod length CHARSET) # map (\<lambda>k. CHARSET ! (t (Suc p + k) mod length CHARSET)) [0..<m]"
      by (simp add: upt_conv_Cons map_Suc_upt [symmetric] del: upt_Suc)
    with True "1.IH" [OF True ch [symmetric]] m m' show ?thesis
      by (simp add: completa.simps [of t len partes p] ch del: upt_Suc)
  qed
qed

lemma shuffle_from_mset:
  "i < length x \<Longrightarrow> mset (fst (shuffle_from t i x p)) = mset x"
proof (induction i arbitrary: x p)
  case 0 show ?case by simp
next
  case (Suc i)
  let ?j = "t p mod (Suc i + 1)"
  let ?x' = "x[Suc i := x ! ?j, ?j := x ! Suc i]"
  have "?j < Suc i + 1" by (rule mod_less_divisor) simp
  then have j: "?j < length x" using Suc.prems by linarith
  have "mset ?x' = mset x" using mset_swap [OF j Suc.prems] .
  moreover have "i < length ?x'" using Suc.prems by simp
  ultimately show ?case using Suc.IH [of ?x' "Suc p"] by (simp add: randbelow_def)
qed

lemma shuffle_from_snd: "snd (shuffle_from t i x p) = p + i"
  by (induction i arbitrary: x p) (simp_all add: randbelow_def)

lemma shuffle_mset: "mset (fst (shuffle t x p)) = mset x"
proof (cases "x = []")
  case True then show ?thesis by (simp add: shuffle_def)
next
  case False
  then have "length x - 1 < length x" by (cases x) simp_all
  then show ?thesis unfolding shuffle_def by (rule shuffle_from_mset)
qed

lemma shuffle_snd: "snd (shuffle t x p) = p + (length x - 1)"
  by (simp add: shuffle_def shuffle_from_snd)

subsection \<open>One password\<close>

lemma gerar_senha_plain:
  assumes "1 \<le> len" "len \<le> 64"
  shows "gerar_senha t len False p =
           (Inr (map (\<lambda>k. CHARSET ! (t (p + k) mod 62)) [0..<nat len]), p + nat len)"
  using assms by (simp add: gerar_senha_def MIN_LENGTH_def MAX_LENGTH_def escolhas_eq length_CHARSET)

lemma gerar_senha_all:
  assumes "3 \<le> len" "len \<le> 64"
  shows "gerar_senha t len True p =
           (Inr (fst (shuffle t (partes_iniciais t len p) (p + nat len))), p + (2 * nat len - 1))"
proof -
  have c: "completa t len [digits ! (t p mod 10), ascii_uppercase ! (t (Suc p) mod 26),
             ascii_lowercase ! (t (Suc (Suc p)) mod 26)] (Suc (Suc (Suc p)))
           = (partes_iniciais t len p, p + nat len)"
  proof -
    have "3 \<le> nat len" using assms by simp
    then show ?thesis
      by (simp add: completa_eq partes_iniciais_def length_CHARSET numeral_3_eq_3)
  qed
  have l: "length (partes_iniciais t len p) = nat len"
    using assms by (simp add: partes_iniciais_def)
  have "p + nat len + (nat len - 1) = p + (2 * nat len - 1)" using assms by simp
  then show ?thesis
    using assms
    by (simp add: gerar_senha_def MIN_LENGTH_def MAX_LENGTH_def choice_def randbelow_def
        length_digits length_ascii_uppercase length_ascii_lowercase c case_prod_beta
        shuffle_snd l)
qed

lemma length_shuffle: "length (fst (shuffle t x p)) = length x"
  using shuffle_mset [of t x p] by (metis size_mset)

lemma set_shuffle: "set (fst (shuffle t x p)) = set x"
  using shuffle_mset [of t x p] by (metis set_mset_mset)

lemma nth_CHARSET_mem: "CHARSET ! (r mod 62) \<in> set CHARSET"
  by (rule nth_mem) (simp add: length_CHARSET)

lemma digits_sub: "set digits \<subseteq> set CHARSET" by (simp add: CHARSET_def)

lemma upper_sub: "set ascii_uppercase \<subseteq> set CHARSET" by (auto simp: CHARSET_def)

lemma lower_sub: "set ascii_lowercase \<subseteq> set CHARSET" by (auto simp: CHARSET_def)

lemma set_partes_iniciais: "set (partes_iniciais t len p) \<subseteq> set CHARSET"
proof -
  have "digits ! (t p mod 10) \<in> set digits" by (rule nth_mem) (simp add: length_digits)
  moreover have "ascii_uppercase ! (t (p + 1) mod 26) \<in> set ascii_uppercase"
    by (rule nth_mem) (simp add: length_ascii_uppercase)
  moreover have "ascii_lowercase ! (t (p + 2) mod 26) \<in> set ascii_lowercase"
    by (rule nth_mem) (simp add: length_ascii_lowercase)
  ultimately show ?thesis
    using digits_sub upper_sub lower_sub nth_CHARSET_mem
    by (auto simp: partes_iniciais_def)
qed

lemma gerar_senha_all_ok:
  assumes "3 \<le> len" "len \<le> 64"
  shows "senha_ok len True (fst (shuffle t (partes_iniciais t len p) q))"
proof -
  let ?x = "partes_iniciais t len p"
  have "digits ! (t p mod 10) \<in> set digits" by (rule nth_mem) (simp add: length_digits)
  then have d: "\<exists>c \<in> set ?x. c \<in> set digits" by (auto simp: partes_iniciais_def)
  have "ascii_uppercase ! (t (p + 1) mod 26) \<in> set ascii_uppercase"
    by (rule nth_mem) (simp add: length_ascii_uppercase)
  then have u: "\<exists>c \<in> set ?x. c \<in> set ascii_uppercase" by (auto simp: partes_iniciais_def)
  have "ascii_lowercase ! (t (p + 2) mod 26) \<in> set ascii_lowercase"
    by (rule nth_mem) (simp add: length_ascii_lowercase)
  then have l: "\<exists>c \<in> set ?x. c \<in> set ascii_lowercase" by (auto simp: partes_iniciais_def)
  have n: "int (length ?x) = len" using assms by (simp add: partes_iniciais_def)
  show ?thesis
    unfolding senha_ok_def set_shuffle length_shuffle
    using d u l n set_partes_iniciais [of t len p] by simp
qed

lemma gerar_senha_plain_ok:
  assumes "1 \<le> len" "len \<le> 64"
  shows "senha_ok len False (map (\<lambda>k. CHARSET ! (t (p + k) mod 62)) [0..<nat len])"
  using assms nth_CHARSET_mem by (auto simp: senha_ok_def)

lemma gerar_senha_valid:
  assumes "1 \<le> len" "len \<le> 64" "require_all \<longrightarrow> 3 \<le> len"
  shows "\<exists>s. gerar_senha t len require_all p = (Inr s, p + sorteios len require_all)
             \<and> senha_ok len require_all s"
proof (cases require_all)
  case True
  with assms have "3 \<le> len" by simp
  from gerar_senha_all [OF this assms(2)] gerar_senha_all_ok [OF this assms(2)] True
  show ?thesis by (simp add: sorteios_def)
next
  case False
  with gerar_senha_plain [OF assms(1,2)] gerar_senha_plain_ok [OF assms(1,2)]
  show ?thesis by (simp add: sorteios_def)
qed

lemma gerar_senha_senha_k:
  assumes "1 \<le> len" "len \<le> 64" "require_all \<longrightarrow> 3 \<le> len"
  shows "gerar_senha t len require_all (p + k * sorteios len require_all)
         = (Inr (senha_k t len require_all p k), p + Suc k * sorteios len require_all)"
  using gerar_senha_valid [OF assms, of t "p + k * sorteios len require_all"]
  by (auto simp: senha_k_def)

lemma senha_k_ok:
  assumes "1 \<le> len" "len \<le> 64" "require_all \<longrightarrow> 3 \<le> len"
  shows "senha_ok len require_all (senha_k t len require_all p k)"
  using gerar_senha_valid [OF assms, of t "p + k * sorteios len require_all"]
  by (auto simp: senha_k_def)

lemma gerar_senha_Inl:
  assumes "gerar_senha t len require_all p = (Inl e, p')"
  shows "p' = p \<and> (len < 1 \<or> 64 < len \<or> (require_all \<and> len < 3))"
proof (rule ccontr)
  assume a: "\<not> ?thesis"
  show False
  proof (cases "len < 1 \<or> 64 < len \<or> (require_all \<and> len < 3)")
    case True
    with assms a show False
      by (auto simp: gerar_senha_def MIN_LENGTH_def MAX_LENGTH_def split: if_splits)
  next
    case False
    then have "1 \<le> len" "len \<le> 64" "require_all \<longrightarrow> 3 \<le> len" by auto
    from gerar_senha_valid [OF this, of t p] assms show False by auto
  qed
qed

subsection \<open>The list of a batch without unique\<close>

lemma lista_senhas_valid:
  assumes "1 \<le> len" "len \<le> 64" "require_all \<longrightarrow> 3 \<le> len"
  shows "lista_senhas t len require_all n (p + k * sorteios len require_all)
         = (Inr (map (senha_k t len require_all p) [k..<k + n]),
            p + (k + n) * sorteios len require_all)"
proof (induction n arbitrary: k)
  case 0 show ?case by simp
next
  case (Suc n)
  have "[k..<k + Suc n] = k # [Suc k..<Suc k + n]" by (simp add: upt_conv_Cons)
  then show ?case
    using Suc [of "Suc k"] gerar_senha_senha_k [OF assms, of t p k]
    by (simp del: upt_Suc mult_Suc)
qed

subsection \<open>The loop of the unique passwords\<close>


lemma unicas_result:
  assumes "unicas t qtd len require_all S q = Some r"
    and "1 \<le> len" "len \<le> 64" "require_all \<longrightarrow> 3 \<le> len"
    and "S = senha_k t len require_all p ` {..<j}"
    and "q = p + j * sorteios len require_all"
  shows "\<exists>m\<ge>j. r = (Inr (senha_k t len require_all p ` {..<m}), p + m * sorteios len require_all)
           \<and> \<not> int (card (senha_k t len require_all p ` {..<m})) < qtd
           \<and> (\<forall>i. j \<le> i \<and> i < m \<longrightarrow> int (card (senha_k t len require_all p ` {..<i})) < qtd)"
  using assms(2-)
proof (induction arbitrary: j rule: unicas.raw_induct [OF _ assms(1)])
  case (1 unicas t qtd len require_all senhas q r)
  note v = "1.prems"(1,2,3) and S = "1.prems"(4) and q = "1.prems"(5)
    and eqn = "1.hyps" and IH = "1.IH"
  show ?case
  proof (cases "int (card senhas) < qtd")
    case False
    with eqn S q show ?thesis by (intro exI [of _ j]) auto
  next
    case True
    have ins: "insert (senha_k t len require_all p j) senhas
             = senha_k t len require_all p ` {..<Suc j}"
      using S by (simp add: lessThan_Suc)
    from True eqn q gerar_senha_senha_k [OF v, of t p j]
    have "unicas t qtd len require_all (insert (senha_k t len require_all p j) senhas)
            (p + Suc j * sorteios len require_all) = Some r"
      by (simp del: mult_Suc)
    from IH [OF this v ins refl]
    obtain m where m: "Suc j \<le> m"
      "r = (Inr (senha_k t len require_all p ` {..<m}), p + m * sorteios len require_all)"
      "\<not> int (card (senha_k t len require_all p ` {..<m})) < qtd"
      "\<forall>i. Suc j \<le> i \<and> i < m \<longrightarrow> int (card (senha_k t len require_all p ` {..<i})) < qtd"
      by blast
    have "\<forall>i. j \<le> i \<and> i < m \<longrightarrow> int (card (senha_k t len require_all p ` {..<i})) < qtd"
    proof (intro allI impI)
      fix i assume i: "j \<le> i \<and> i < m"
      show "int (card (senha_k t len require_all p ` {..<i})) < qtd"
      proof (cases "i = j")
        case True with \<open>int (card senhas) < qtd\<close> S show ?thesis by simp
      next
        case False with i m(4) show ?thesis by simp
      qed
    qed
    with m show ?thesis by (intro exI [of _ m]) auto
  qed
qed

lemma card_image_Suc_le: "card (f ` {..<Suc m}) \<le> Suc (card (f ` {..<m}))"
  by (simp add: lessThan_Suc card_insert_if)

lemma unicas_correct:
  assumes v: "1 \<le> len" "len \<le> 64" "require_all \<longrightarrow> 3 \<le> len" and q: "1 \<le> qtd"
    and r: "unicas t qtd len require_all {} p = Some r"
  shows "\<exists>m. r = (Inr (senha_k t len require_all p ` {..<m}), p + m * sorteios len require_all)
           \<and> int (card (senha_k t len require_all p ` {..<m})) = qtd"
proof -
  from unicas_result [OF r v, of p 0]
  obtain m where m: "r = (Inr (senha_k t len require_all p ` {..<m}), p + m * sorteios len require_all)"
      "\<not> int (card (senha_k t len require_all p ` {..<m})) < qtd"
      "\<forall>i. i < m \<longrightarrow> int (card (senha_k t len require_all p ` {..<i})) < qtd"
    by auto
  have "m \<noteq> 0"
  proof
    assume "m = 0"
    with m(2) q show False by simp
  qed
  then obtain m' where m': "m = Suc m'" by (cases m) auto
  with m(3) have "int (card (senha_k t len require_all p ` {..<m'})) < qtd" by simp
  with card_image_Suc_le [of "senha_k t len require_all p" m'] m'
  have "int (card (senha_k t len require_all p ` {..<m})) \<le> qtd" by simp
  with m(1,2) show ?thesis by (intro exI [of _ m]) auto
qed


subsection \<open>Tapes that yield distinct passwords\<close>

















subsection \<open>The constant tape\<close>




subsection \<open>The two branches of gerar\_lista\<close>

lemma gerar_lista_unique_eq:
  assumes "1 \<le> qtd" "qtd \<le> 10000" "1 \<le> len" "len \<le> 64" "require_all \<longrightarrow> 3 \<le> len"
    "qtd \<le> 62 ^ nat len"
  shows "gerar_lista t qtd len True require_all p =
           (case unicas t qtd len require_all {} p of
              None \<Rightarrow> None
            | Some (Inl e, p') \<Rightarrow> Some (Inl e, p')
            | Some (Inr s, p') \<Rightarrow> Some (Inr (ListaDoConjunto s), p'))"
  using assms
  by (auto simp: gerar_lista_def MIN_LENGTH_def MAX_LENGTH_def total_combinacoes_def length_CHARSET)

lemma gerar_lista_not_unique_eq:
  assumes "1 \<le> qtd" "qtd \<le> 10000" "1 \<le> len" "len \<le> 64" "require_all \<longrightarrow> 3 \<le> len"
  shows "gerar_lista t qtd len False require_all p =
           Some (Inr (Lista (map (senha_k t len require_all p) [0..<nat qtd])),
                 p + nat qtd * sorteios len require_all)"
  using assms lista_senhas_valid [OF assms(3,4,5), of t "nat qtd" p 0]
  by (auto simp: gerar_lista_def MIN_LENGTH_def MAX_LENGTH_def)



lemma gerar_senha_advances:
  assumes "gerar_senha t len require_all q = (Inr s, q')"
  shows "q < q' \<and> senha_ok len require_all s"
proof -
  have v: "1 \<le> len \<and> len \<le> 64 \<and> (require_all \<longrightarrow> 3 \<le> len)"
    using assms by (auto simp: gerar_senha_def MIN_LENGTH_def MAX_LENGTH_def split: if_splits)
  then have "1 \<le> len" "len \<le> 64" "require_all \<longrightarrow> 3 \<le> len" by auto
  from gerar_senha_valid [OF this, of t q] assms
  have "q' = q + sorteios len require_all" "senha_ok len require_all s" by auto
  moreover have "0 < sorteios len require_all" using v by (auto simp: sorteios_def)
  ultimately show ?thesis by simp
qed

lemma senha_ok_CHARSET: "senha_ok len require_all s \<Longrightarrow> set s \<subseteq> set CHARSET"
  by (simp add: senha_ok_def)

lemma gerar_lista_Inr:
  assumes "gerar_lista t qtd len unique require_all p = Some (Inr r, p')"
  shows "1 \<le> qtd \<and> qtd \<le> 10000 \<and> 1 \<le> len \<and> len \<le> 64 \<and> (require_all \<longrightarrow> 3 \<le> len)
         \<and> (unique \<longrightarrow> qtd \<le> 62 ^ nat len)"
  using assms
  by (auto simp: gerar_lista_def MIN_LENGTH_def MAX_LENGTH_def total_combinacoes_def length_CHARSET
      split: if_splits)

lemma gerar_lista_unique_Some:
  assumes v: "1 \<le> qtd" "qtd \<le> 10000" "1 \<le> len" "len \<le> 64" "require_all \<longrightarrow> 3 \<le> len"
    "qtd \<le> 62 ^ nat len"
    and r: "gerar_lista t qtd len True require_all p = Some r"
  shows "\<exists>m. r = (Inr (ListaDoConjunto (senha_k t len require_all p ` {..<m})),
                  p + m * sorteios len require_all)
           \<and> int (card (senha_k t len require_all p ` {..<m})) = qtd"
proof -
  from r obtain u where u: "unicas t qtd len require_all {} p = Some u"
    by (auto simp: gerar_lista_unique_eq [OF v] split: option.splits)
  from unicas_correct [OF v(3,4,5,1) u] obtain m
    where m: "u = (Inr (senha_k t len require_all p ` {..<m}), p + m * sorteios len require_all)"
      "int (card (senha_k t len require_all p ` {..<m})) = qtd" by blast
  with r u show ?thesis by (auto simp: gerar_lista_unique_eq [OF v])
qed

lemma gerar_lista_valid_no_error:
  assumes v: "1 \<le> qtd" "qtd \<le> 10000" "1 \<le> len" "len \<le> 64" "require_all \<longrightarrow> 3 \<le> len"
    "unique \<longrightarrow> qtd \<le> 62 ^ nat len"
  shows "gerar_lista t qtd len unique require_all p \<noteq> Some (Inl e, p')"
proof (cases unique)
  case False
  then show ?thesis using gerar_lista_not_unique_eq [OF v(1-5), of t p] by simp
next
  case True
  with v have f: "qtd \<le> 62 ^ nat len" by simp
  show ?thesis
  proof
    assume "gerar_lista t qtd len unique require_all p = Some (Inl e, p')"
    with True gerar_lista_unique_Some [OF v(1-5) f, of t p "(Inl e, p')"] show False by auto
  qed
qed

lemma gerar_lista_Inl:
  assumes "gerar_lista t qtd len unique require_all p = Some (Inl e, p')"
  shows "p' = p \<and> gerar_lista t' qtd len unique require_all p'' = Some (Inl e, p'') \<and>
    e \<in> {ValueError msg_quantidade, ValueError msg_comprimento, ValueError msg_composicao,
         ValueError (msg_unicas qtd (total_combinacoes len) len)}"
proof (cases "1 \<le> qtd \<and> qtd \<le> 10000 \<and> 1 \<le> len \<and> len \<le> 64 \<and> (require_all \<longrightarrow> 3 \<le> len)
         \<and> (unique \<longrightarrow> qtd \<le> 62 ^ nat len)")
  case True
  then have "1 \<le> qtd" "qtd \<le> 10000" "1 \<le> len" "len \<le> 64" "require_all \<longrightarrow> 3 \<le> len"
    "unique \<longrightarrow> qtd \<le> 62 ^ nat len" by auto
  from gerar_lista_valid_no_error [OF this] assms show ?thesis by blast
next
  case False
  with assms show ?thesis
    by (auto simp: gerar_lista_def MIN_LENGTH_def MAX_LENGTH_def total_combinacoes_def
        length_CHARSET split: if_splits)
qed

lemma msg_unicas_neq:
  "msg_unicas a b c \<noteq> msg_comprimento" "msg_unicas a b c \<noteq> msg_composicao"
  "msg_unicas a b c \<noteq> msg_quantidade"
  by (simp_all add: msg_unicas_def msg_comprimento_def msg_composicao_def msg_quantidade_def)

lemma gerar_lista_same_rules:
  assumes q: "1 \<le> qtd" "qtd \<le> 10000"
    and g: "gerar_lista t qtd len unique require_all p = Some (Inl e, p')"
    and e: "e = ValueError msg_comprimento \<or> e = ValueError msg_composicao"
  shows "gerar_senha t' len require_all q = (Inl e, q)"
proof (cases "len < 1 \<or> 64 < len \<or> (require_all \<and> len < 3)")
  case True
  with q g show ?thesis
    by (auto simp: gerar_senha_def gerar_lista_def MIN_LENGTH_def MAX_LENGTH_def split: if_splits)
next
  case False
  with q g e msg_unicas_neq(1,2) [of qtd "total_combinacoes len" len]
  show ?thesis
    using gerar_lista_valid_no_error [of qtd len require_all unique t p e p']
    by (auto simp: gerar_lista_def MIN_LENGTH_def MAX_LENGTH_def total_combinacoes_def length_CHARSET
        split: if_splits)
qed

subsection \<open>The decimal text of an integer\<close>

lemma digito_props:
  assumes "n < 10"
  shows "of_char (digito n) = 48 + n" "digito n \<in> set digits" "digito n \<noteq> CHR ''-''"
proof -
  have "\<forall>n<10. (of_char (digito n) :: nat) = 48 + n \<and> digito n \<in> set digits \<and> digito n \<noteq> CHR ''-''"
    by (simp add: digito_def digits_def eval_nat_numeral All_less_Suc)
  with assms show "of_char (digito n) = 48 + n" "digito n \<in> set digits" "digito n \<noteq> CHR ''-''"
    by blast+
qed

lemma valor_decimal_snoc:
  "valor_decimal (s @ [c]) = 10 * valor_decimal s + (of_char c - 48)"
  by (simp add: valor_decimal_def)

lemma valor_str_nat: "valor_decimal (str_nat n) = n"
proof (induction n rule: str_nat.induct)
  case (1 n)
  show ?case
  proof (cases "n < 10")
    case True
    then show ?thesis
      by (simp add: str_nat.simps [of n] valor_decimal_def digito_props(1))
  next
    case False
    have "n mod 10 < 10" by simp
    from digito_props(1) [OF this] have "of_char (digito (n mod 10)) - 48 = n mod 10" by simp
    with False "1.IH" show ?thesis
      by (simp add: str_nat.simps [of n] valor_decimal_snoc)
  qed
qed

lemma set_str_nat: "set (str_nat n) \<subseteq> set digits"
proof (induction n rule: str_nat.induct)
  case (1 n)
  show ?case
  proof (cases "n < 10")
    case True
    then show ?thesis by (simp add: str_nat.simps [of n] digito_props(2))
  next
    case False
    have "n mod 10 < 10" by simp
    from digito_props(2) [OF this] False "1.IH" show ?thesis
      by (simp add: str_nat.simps [of n])
  qed
qed

lemma str_nat_not_Nil: "str_nat n \<noteq> []"
  by (simp add: str_nat.simps [of n])

lemma hd_str_nat: "hd (str_nat n) \<noteq> CHR ''-''"
proof -
  have "hd (str_nat n) \<in> set (str_nat n)" using str_nat_not_Nil by simp
  with set_str_nat have "hd (str_nat n) \<in> set digits" by blast
  then show ?thesis by (auto simp: digits_def)
qed

lemma valor_str_int: "valor_int (str_int i) = i"
proof (cases "i < 0")
  case True
  then show ?thesis by (simp add: valor_int_def str_int_def valor_str_nat)
next
  case False
  obtain c r where cr: "str_nat (nat i) = c # r"
    using str_nat_not_Nil [of "nat i"] by (cases "str_nat (nat i)") auto
  with hd_str_nat [of "nat i"] have "c \<noteq> CHR ''-''" by simp
  with cr False valor_str_nat [of "nat i"] show ?thesis
    by (simp add: valor_int_def str_int_def)
qed

lemma set_str_int: "0 \<le> i \<Longrightarrow> set (str_int i) \<subseteq> set digits"
  by (simp add: str_int_def set_str_nat)

section \<open>The claims\<close>

text \<open>
  C1. For every length between 3 and 64, \<open>gerar_senha\<close> with \<open>require_all\<close> returns a string
  of exactly that many characters which holds at least one digit, one uppercase and one
  lowercase letter, whatever the draws are.
\<close>

theorem gerar_senha_require_all:
  assumes "3 \<le> len" "len \<le> 64"
  shows "\<exists>s p'. gerar_senha t len True p = (Inr s, p') \<and> int (length s) = len \<and>
           (\<exists>c \<in> set s. c \<in> set digits) \<and> (\<exists>c \<in> set s. c \<in> set ascii_uppercase) \<and>
           (\<exists>c \<in> set s. c \<in> set ascii_lowercase)"
proof -
  have "1 \<le> len" "True \<longrightarrow> 3 \<le> len" using assms by simp_all
  from gerar_senha_valid [OF this(1) assms(2) this(2), of t p]
  show ?thesis by (auto simp: senha_ok_def)
qed

theorem gerar_senha_require_all_witness:
  "(3::int) \<le> 3 \<and> (3::int) \<le> 64 \<and> gerar_senha id 3 True 0 = (Inr ''Bc0'', 5) \<and>
   (\<exists>s p'. gerar_senha id 3 True 0 = (Inr s, p') \<and> int (length s) = 3 \<and>
      (\<exists>c \<in> set s. c \<in> set digits) \<and> (\<exists>c \<in> set s. c \<in> set ascii_uppercase) \<and>
      (\<exists>c \<in> set s. c \<in> set ascii_lowercase))"
proof -
  have h: "(3::int) \<le> 3" "(3::int) \<le> 64" by simp_all
  have e: "gerar_senha id 3 True 0 = (Inr ''Bc0'', 5)" by code_simp
  show ?thesis using h e gerar_senha_require_all [OF h, of id 0] by simp
qed

text \<open>
  C2. For every length between 1 and 64, \<open>gerar_senha\<close> without \<open>require_all\<close> returns a
  string of exactly that many characters, each of them one of the 62 characters of
  \<open>CHARSET\<close>.
\<close>

theorem gerar_senha_plain_result:
  assumes "1 \<le> len" "len \<le> 64"
  shows "\<exists>s p'. gerar_senha t len False p = (Inr s, p') \<and> int (length s) = len \<and>
           (\<forall>c \<in> set s. c \<in> set CHARSET) \<and> card (set CHARSET) = 62"
proof -
  have "card (set CHARSET) = 62"
    using distinct_CHARSET length_CHARSET by (simp add: distinct_card)
  moreover have "False \<longrightarrow> 3 \<le> len" by simp
  from gerar_senha_valid [OF assms this, of t p]
  have "\<exists>s p'. gerar_senha t len False p = (Inr s, p') \<and> int (length s) = len \<and>
           (\<forall>c \<in> set s. c \<in> set CHARSET)"
    by (auto simp: senha_ok_def)
  ultimately show ?thesis by simp
qed

theorem gerar_senha_plain_result_witness:
  "(1::int) \<le> 4 \<and> (4::int) \<le> 64 \<and> gerar_senha id 4 False 0 = (Inr ''0123'', 4) \<and>
   (\<exists>s p'. gerar_senha id 4 False 0 = (Inr s, p') \<and> int (length s) = 4 \<and>
      (\<forall>c \<in> set s. c \<in> set CHARSET) \<and> card (set CHARSET) = 62)"
proof -
  have h: "(1::int) \<le> 4" "(4::int) \<le> 64" by simp_all
  have e: "gerar_senha id 4 False 0 = (Inr ''0123'', 4)" by code_simp
  show ?thesis using h e gerar_senha_plain_result [OF h, of id 0] by simp
qed

text \<open>
  C6. \<open>gerar_senha\<close> raises the error of an invalid length for every length below 1 or
  above 64, whatever \<open>require_all\<close> is (so also for length 0 with \<open>require_all\<close>), and the
  error of the minimal composition for the lengths 1 and 2 with \<open>require_all\<close>. The two
  errors differ, and no draw is consumed.
\<close>

theorem gerar_senha_errors:
  "(len < 1 \<or> 64 < len \<longrightarrow>
      gerar_senha t len require_all p = (Inl (ValueError msg_comprimento), p)) \<and>
   (len = 1 \<or> len = 2 \<longrightarrow>
      gerar_senha t len True p = (Inl (ValueError msg_composicao), p)) \<and>
   msg_comprimento \<noteq> msg_composicao"
proof -
  have "msg_comprimento \<noteq> msg_composicao"
    by (simp add: msg_comprimento_def msg_composicao_def)
  then show ?thesis by (auto simp: gerar_senha_def MIN_LENGTH_def MAX_LENGTH_def)
qed

theorem gerar_senha_errors_witness:
  "gerar_senha id 0 True 0 = (Inl (ValueError msg_comprimento), 0) \<and>
   gerar_senha id 65 False 0 = (Inl (ValueError msg_comprimento), 0) \<and>
   gerar_senha id 2 True 0 = (Inl (ValueError msg_composicao), 0) \<and>
   msg_comprimento = ''Comprimento inv'' @ [CHR 0xC3, CHR 0xA1] @ ''lido. Use entre 1 e 64.''"
proof -
  have "msg_comprimento = ''Comprimento inv'' @ [CHR 0xC3, CHR 0xA1] @ ''lido. Use entre 1 e 64.''"
    by code_simp
  then show ?thesis
    using gerar_senha_errors [of 0 id True 0] gerar_senha_errors [of 65 id False 0]
      gerar_senha_errors [of 2 id True 0]
    by simp
qed

text \<open>
  C5. Without \<open>unique\<close>, \<open>gerar_lista\<close> on a valid request returns a list of exactly
  \<open>qtd\<close> strings in the order of generation: entry \<open>k\<close> is the password that the
  \<open>k\<close>-th call of \<open>gerar_senha\<close> returns, made where the call before it left the source.
  Nothing is removed, so equal passwords stay in the list, and every entry is a password
  for the given policy.
\<close>

theorem gerar_lista_not_unique:
  assumes "1 \<le> qtd" "qtd \<le> 10000" "1 \<le> len" "len \<le> 64" "require_all \<longrightarrow> 3 \<le> len"
  shows "\<exists>ss. gerar_lista t qtd len False require_all p
               = Some (Inr (Lista ss), p + nat qtd * sorteios len require_all) \<and>
           int (length ss) = qtd \<and>
           (\<forall>k < nat qtd. gerar_senha t len require_all (p + k * sorteios len require_all)
                            = (Inr (ss ! k), p + Suc k * sorteios len require_all)) \<and>
           (\<forall>s \<in> set ss. senha_ok len require_all s)"
proof -
  let ?ss = "map (senha_k t len require_all p) [0..<nat qtd]"
  have "int (length ?ss) = qtd" using assms(1) by simp
  moreover have "\<forall>k < nat qtd. gerar_senha t len require_all (p + k * sorteios len require_all)
                            = (Inr (?ss ! k), p + Suc k * sorteios len require_all)"
    using gerar_senha_senha_k [OF assms(3,4,5), of t p] by simp
  moreover have "\<forall>s \<in> set ?ss. senha_ok len require_all s"
    using senha_k_ok [OF assms(3,4,5), of t p] by auto
  ultimately show ?thesis
    using gerar_lista_not_unique_eq [OF assms, of t p] by blast
qed

theorem gerar_lista_not_unique_witness:
  "(1::int) \<le> 3 \<and> (3::int) \<le> 10000 \<and> (1::int) \<le> 1 \<and> (1::int) \<le> 64 \<and>
   gerar_lista (constante 0) 3 1 False False 0 = Some (Inr (Lista [''0'', ''0'', ''0'']), 3) \<and>
   (\<exists>ss. gerar_lista (constante 0) 3 1 False False 0
            = Some (Inr (Lista ss), 0 + nat 3 * sorteios 1 False) \<and>
          int (length ss) = 3 \<and>
          (\<forall>k < nat 3. gerar_senha (constante 0) 1 False (0 + k * sorteios 1 False)
                            = (Inr (ss ! k), 0 + Suc k * sorteios 1 False)) \<and>
          (\<forall>s \<in> set ss. senha_ok 1 False s))"
proof -
  have h: "(1::int) \<le> 3" "(3::int) \<le> 10000" "(1::int) \<le> 1" "(1::int) \<le> 64"
    "False \<longrightarrow> (3::int) \<le> 1" by simp_all
  have e: "gerar_lista (constante 0) 3 1 False False 0 = Some (Inr (Lista [''0'', ''0'', ''0'']), 3)"
    by code_simp
  show ?thesis
    using h(1-4) e gerar_lista_not_unique [OF h, of "constante 0" 0] by blast
qed

text \<open>
  C7. \<open>gerar_lista\<close> raises the error of an invalid quantity for every \<open>qtd\<close> below 1 or
  above 10000. For the other quantities it applies the rules of \<open>gerar_senha\<close> to the
  length and to \<open>require_all\<close>: whenever \<open>gerar_senha\<close> raises an error on them,
  \<open>gerar_lista\<close> raises the same error, that of the invalid length or that of the minimal
  composition; and whenever \<open>gerar_lista\<close> raises one of these two errors, \<open>gerar_senha\<close>
  raises it as well. The error of the quantity is neither of them.
\<close>

theorem gerar_lista_validation:
  "(qtd < 1 \<or> 10000 < qtd \<longrightarrow>
      gerar_lista t qtd len unique require_all p = Some (Inl (ValueError msg_quantidade), p)) \<and>
   (1 \<le> qtd \<and> qtd \<le> 10000 \<longrightarrow>
      (\<forall>t' q e q'. gerar_senha t' len require_all q = (Inl e, q') \<longrightarrow>
         gerar_lista t qtd len unique require_all p = Some (Inl e, p) \<and>
         (e = ValueError msg_comprimento \<and> (len < 1 \<or> 64 < len) \<or>
          e = ValueError msg_composicao \<and> 1 \<le> len \<and> len < 3 \<and> require_all))) \<and>
   (1 \<le> qtd \<and> qtd \<le> 10000 \<longrightarrow>
      (\<forall>e p' t' q. gerar_lista t qtd len unique require_all p = Some (Inl e, p') \<and>
         (e = ValueError msg_comprimento \<or> e = ValueError msg_composicao) \<longrightarrow>
         gerar_senha t' len require_all q = (Inl e, q))) \<and>
   msg_quantidade \<noteq> msg_comprimento \<and> msg_quantidade \<noteq> msg_composicao"
proof -
  have m: "msg_quantidade \<noteq> msg_comprimento" "msg_quantidade \<noteq> msg_composicao"
    by (simp_all add: msg_quantidade_def msg_comprimento_def msg_composicao_def)
  have a: "qtd < 1 \<or> 10000 < qtd \<longrightarrow>
      gerar_lista t qtd len unique require_all p = Some (Inl (ValueError msg_quantidade), p)"
    by (auto simp: gerar_lista_def)
  have b: "gerar_lista t qtd len unique require_all p = Some (Inl e, p) \<and>
         (e = ValueError msg_comprimento \<and> (len < 1 \<or> 64 < len) \<or>
          e = ValueError msg_composicao \<and> 1 \<le> len \<and> len < 3 \<and> require_all)"
    if q: "1 \<le> qtd \<and> qtd \<le> 10000" and g: "gerar_senha t' len require_all q = (Inl e, q')"
    for t' q e q'
  proof -
    from gerar_senha_Inl [OF g] have i: "len < 1 \<or> 64 < len \<or> (require_all \<and> len < 3)" by simp
    show ?thesis
    proof (cases "len < 1 \<or> 64 < len")
      case True
      with g q show ?thesis
        by (auto simp: gerar_senha_def gerar_lista_def MIN_LENGTH_def MAX_LENGTH_def)
    next
      case False
      with i g q show ?thesis
        by (auto simp: gerar_senha_def gerar_lista_def MIN_LENGTH_def MAX_LENGTH_def)
    qed
  qed
  have c: "gerar_senha t' len require_all q = (Inl e, q)"
    if "1 \<le> qtd \<and> qtd \<le> 10000"
      and "gerar_lista t qtd len unique require_all p = Some (Inl e, p') \<and>
         (e = ValueError msg_comprimento \<or> e = ValueError msg_composicao)"
    for e p' t' q
    using that gerar_lista_same_rules [of qtd t len unique require_all p e p' t' q] by blast
  have B: "1 \<le> qtd \<and> qtd \<le> 10000 \<longrightarrow>
      (\<forall>t' q e q'. gerar_senha t' len require_all q = (Inl e, q') \<longrightarrow>
         gerar_lista t qtd len unique require_all p = Some (Inl e, p) \<and>
         (e = ValueError msg_comprimento \<and> (len < 1 \<or> 64 < len) \<or>
          e = ValueError msg_composicao \<and> 1 \<le> len \<and> len < 3 \<and> require_all))"
    using b by blast
  have C: "1 \<le> qtd \<and> qtd \<le> 10000 \<longrightarrow>
      (\<forall>e p' t' q. gerar_lista t qtd len unique require_all p = Some (Inl e, p') \<and>
         (e = ValueError msg_comprimento \<or> e = ValueError msg_composicao) \<longrightarrow>
         gerar_senha t' len require_all q = (Inl e, q))"
    using c by blast
  show ?thesis by (intro conjI a B C m)
qed

theorem gerar_lista_validation_witness:
  "gerar_lista id 0 5 True False 0 = Some (Inl (ValueError msg_quantidade), 0) \<and>
   gerar_lista id 10001 5 False False 0 = Some (Inl (ValueError msg_quantidade), 0) \<and>
   gerar_lista id 10 65 True False 0 = Some (Inl (ValueError msg_comprimento), 0) \<and>
   gerar_lista id 10 2 False True 0 = Some (Inl (ValueError msg_composicao), 0)"
proof -
  have g: "gerar_senha id 65 False 0 = (Inl (ValueError msg_comprimento), 0)"
    "gerar_senha id 2 True 0 = (Inl (ValueError msg_composicao), 0)"
    by (simp_all add: gerar_senha_def MIN_LENGTH_def MAX_LENGTH_def)
  have r: "(1::int) \<le> 10 \<and> (10::int) \<le> 10000" by simp
  have a: "gerar_lista id 0 5 True False 0 = Some (Inl (ValueError msg_quantidade), 0)"
    by (rule gerar_lista_validation [of 0 id 5 True False 0, THEN conjunct1, THEN mp]) simp
  have b: "gerar_lista id 10001 5 False False 0 = Some (Inl (ValueError msg_quantidade), 0)"
    by (rule gerar_lista_validation [of 10001 id 5 False False 0, THEN conjunct1, THEN mp]) simp
  have c: "gerar_lista id 10 65 True False 0 = Some (Inl (ValueError msg_comprimento), 0)"
    by (rule gerar_lista_validation [of 10 id 65 True False 0, THEN conjunct2, THEN conjunct1,
          THEN mp, OF r, THEN spec, THEN spec, THEN spec, THEN spec, THEN mp, OF g(1),
          THEN conjunct1])
  have d: "gerar_lista id 10 2 False True 0 = Some (Inl (ValueError msg_composicao), 0)"
    by (rule gerar_lista_validation [of 10 id 2 False True 0, THEN conjunct2, THEN conjunct1,
          THEN mp, OF r, THEN spec, THEN spec, THEN spec, THEN spec, THEN mp, OF g(2),
          THEN conjunct1])
  from a b c d show ?thesis by (intro conjI)
qed

text \<open>
  C9. The alphabet \<open>CHARSET\<close> is the fixed sequence of the 10 digits, then the 26 uppercase
  letters, then the 26 lowercase letters: 62 characters, all distinct. Every character of
  every password that \<open>gerar_senha\<close> or \<open>gerar_lista\<close> returns, with or without
  \<open>require_all\<close> and with or without \<open>unique\<close>, is a character of \<open>CHARSET\<close>.
\<close>

theorem charset_invariant:
  "CHARSET = ''0123456789'' @ ''ABCDEFGHIJKLMNOPQRSTUVWXYZ'' @ ''abcdefghijklmnopqrstuvwxyz'' \<and>
   CHARSET = digits @ ascii_uppercase @ ascii_lowercase \<and>
   length digits = 10 \<and> length ascii_uppercase = 26 \<and> length ascii_lowercase = 26 \<and>
   length CHARSET = 62 \<and> distinct CHARSET \<and>
   (\<forall>t len require_all p s p'.
      gerar_senha t len require_all p = (Inr s, p') \<longrightarrow> set s \<subseteq> set CHARSET) \<and>
   (\<forall>t qtd len unique require_all p ss p'.
      gerar_lista t qtd len unique require_all p = Some (Inr (Lista ss), p') \<longrightarrow>
      (\<forall>s \<in> set ss. set s \<subseteq> set CHARSET)) \<and>
   (\<forall>t qtd len unique require_all p S p'.
      gerar_lista t qtd len unique require_all p = Some (Inr (ListaDoConjunto S), p') \<longrightarrow>
      (\<forall>s \<in> S. set s \<subseteq> set CHARSET))"
proof -
  have a: "CHARSET = ''0123456789'' @ ''ABCDEFGHIJKLMNOPQRSTUVWXYZ'' @ ''abcdefghijklmnopqrstuvwxyz''"
    by (simp add: CHARSET_def digits_def ascii_uppercase_def ascii_lowercase_def)
  have b: "set s \<subseteq> set CHARSET" if "gerar_senha t len require_all p = (Inr s, p')"
    for t len require_all p s p'
    using gerar_senha_advances [OF that] by (simp add: senha_ok_def)
  have c: "\<forall>s \<in> set ss. set s \<subseteq> set CHARSET"
    if g: "gerar_lista t qtd len unique require_all p = Some (Inr (Lista ss), p')"
    for t qtd len unique require_all p ss p'
  proof -
    from gerar_lista_Inr [OF g]
    have v: "1 \<le> qtd" "qtd \<le> 10000" "1 \<le> len" "len \<le> 64" "require_all \<longrightarrow> 3 \<le> len"
      and u: "unique \<longrightarrow> qtd \<le> 62 ^ nat len" by auto
    have "\<not> unique"
    proof
      assume "unique"
      with u g gerar_lista_unique_Some [OF v, of t p "(Inr (Lista ss), p')"] show False by auto
    qed
    with g gerar_lista_not_unique_eq [OF v, of t p]
    have "ss = map (senha_k t len require_all p) [0..<nat qtd]" by simp
    then show ?thesis
      using senha_k_ok [OF v(3,4,5), of t p] by (auto dest: senha_ok_CHARSET)
  qed
  have d: "\<forall>s \<in> S. set s \<subseteq> set CHARSET"
    if g: "gerar_lista t qtd len unique require_all p = Some (Inr (ListaDoConjunto S), p')"
    for t qtd len unique require_all p S p'
  proof -
    from gerar_lista_Inr [OF g]
    have v: "1 \<le> qtd" "qtd \<le> 10000" "1 \<le> len" "len \<le> 64" "require_all \<longrightarrow> 3 \<le> len"
      and u: "unique \<longrightarrow> qtd \<le> 62 ^ nat len" by auto
    have "unique"
    proof (rule ccontr)
      assume "\<not> unique"
      with g gerar_lista_not_unique_eq [OF v, of t p] show False by simp
    qed
    with u g gerar_lista_unique_Some [OF v, of t p "(Inr (ListaDoConjunto S), p')"]
    obtain m where "S = senha_k t len require_all p ` {..<m}" by auto
    then show ?thesis
      using senha_k_ok [OF v(3,4,5), of t p] by (auto dest: senha_ok_CHARSET)
  qed
  have B: "\<forall>t len require_all p s p'.
      gerar_senha t len require_all p = (Inr s, p') \<longrightarrow> set s \<subseteq> set CHARSET"
    using b by blast
  have C: "\<forall>t qtd len unique require_all p ss p'.
      gerar_lista t qtd len unique require_all p = Some (Inr (Lista ss), p') \<longrightarrow>
      (\<forall>s \<in> set ss. set s \<subseteq> set CHARSET)"
    using c by blast
  have D: "\<forall>t qtd len unique require_all p S p'.
      gerar_lista t qtd len unique require_all p = Some (Inr (ListaDoConjunto S), p') \<longrightarrow>
      (\<forall>s \<in> S. set s \<subseteq> set CHARSET)"
    using d by blast
  show ?thesis
    by (intro conjI a CHARSET_def length_digits length_ascii_uppercase length_ascii_lowercase
        length_CHARSET distinct_CHARSET B C D)
qed

theorem charset_invariant_witness:
  "gerar_senha id 5 True 10 = (Inr ''LDmE0'', 19) \<and> set ''LDmE0'' \<subseteq> set CHARSET \<and>
   gerar_lista id 2 3 True True 0 = Some (Inr (ListaDoConjunto {''5Gh'', ''Bc0''}), 10) \<and>
   set ''5Gh'' \<subseteq> set CHARSET \<and> set ''Bc0'' \<subseteq> set CHARSET \<and>
   gerar_lista id 2 3 False True 0 = Some (Inr (Lista [''Bc0'', ''5Gh'']), 10)"
proof -
  have a: "gerar_senha id 5 True 10 = (Inr ''LDmE0'', 19)" by code_simp
  have b: "gerar_lista id 2 3 True True 0 = Some (Inr (ListaDoConjunto {''5Gh'', ''Bc0''}), 10)"
    by code_simp
  have c: "gerar_lista id 2 3 False True 0 = Some (Inr (Lista [''Bc0'', ''5Gh'']), 10)"
    by code_simp
  have s1: "\<forall>t len require_all p s p'.
      gerar_senha t len require_all p = (Inr s, p') \<longrightarrow> set s \<subseteq> set CHARSET"
    using charset_invariant by (elim conjE)
  have s2: "\<forall>t qtd len unique require_all p ss p'.
      gerar_lista t qtd len unique require_all p = Some (Inr (Lista ss), p') \<longrightarrow>
      (\<forall>s \<in> set ss. set s \<subseteq> set CHARSET)"
    using charset_invariant by (elim conjE)
  have s3: "\<forall>t qtd len unique require_all p S p'.
      gerar_lista t qtd len unique require_all p = Some (Inr (ListaDoConjunto S), p') \<longrightarrow>
      (\<forall>s \<in> S. set s \<subseteq> set CHARSET)"
    using charset_invariant by (elim conjE)
  note r3 = s3 [THEN spec, THEN spec, THEN spec, THEN spec, THEN spec, THEN spec, THEN spec,
            THEN spec, THEN mp, OF b]
  note r2 = s2 [THEN spec, THEN spec, THEN spec, THEN spec, THEN spec, THEN spec, THEN spec,
            THEN spec, THEN mp, OF c]
  show ?thesis
  proof (intro conjI)
    show "gerar_senha id 5 True 10 = (Inr ''LDmE0'', 19)" by (rule a)
    show "set ''LDmE0'' \<subseteq> set CHARSET" by (rule s1 [rule_format, OF a])
    show "gerar_lista id 2 3 True True 0 = Some (Inr (ListaDoConjunto {''5Gh'', ''Bc0''}), 10)"
      by (rule b)
    show "set ''5Gh'' \<subseteq> set CHARSET" by (rule r3 [THEN bspec]) simp
    show "set ''Bc0'' \<subseteq> set CHARSET" by (rule r2 [THEN bspec]) simp
    show "gerar_lista id 2 3 False True 0 = Some (Inr (Lista [''Bc0'', ''5Gh'']), 10)" by (rule c)
  qed
qed

text \<open>
  C10. In \<open>gerar_lista\<close> every check comes before the first password. Whenever the call
  raises an error, the source of draws is where it was at the call, so that no password
  has been generated (each generated password advances the source), the error is one of
  the four errors of the checks, and it is the same error for every source of draws. An
  error is the whole outcome: no list and no set comes with it.
\<close>

theorem gerar_lista_fails_before_generating:
  assumes "gerar_lista t qtd len unique require_all p = Some (Inl e, p')"
  shows "p' = p \<and>
    e \<in> {ValueError msg_quantidade, ValueError msg_comprimento, ValueError msg_composicao,
         ValueError (msg_unicas qtd (total_combinacoes len) len)} \<and>
    (\<forall>t' p''. gerar_lista t' qtd len unique require_all p'' = Some (Inl e, p'')) \<and>
    (\<forall>t' q s q'. gerar_senha t' len require_all q = (Inr s, q') \<longrightarrow> q < q')"
proof -
  have "q < q'" if "gerar_senha t' len require_all q = (Inr s, q')" for t' q s q'
    using gerar_senha_advances [OF that] by simp
  with gerar_lista_Inl [OF assms] show ?thesis by blast
qed

theorem gerar_lista_fails_before_generating_witness:
  "gerar_lista id 100 1 True False 7 = Some (Inl (ValueError (msg_unicas 100 62 1)), 7) \<and>
   (7::nat) = 7 \<and>
   (\<forall>t' p''. gerar_lista t' 100 1 True False p'' = Some (Inl (ValueError (msg_unicas 100 62 1)), p''))"
proof -
  have e: "gerar_lista id 100 1 True False 7 = Some (Inl (ValueError (msg_unicas 100 62 1)), 7)"
    by code_simp
  have "\<forall>t' p''. gerar_lista t' 100 1 True False p''
          = Some (Inl (ValueError (msg_unicas 100 62 1)), p'')"
    using gerar_lista_fails_before_generating [OF e] by (elim conjE)
  with e show ?thesis by simp
qed

text \<open>
  C4, as the code has it. With \<open>unique\<close>, \<open>gerar_lista\<close> raises the error of the infeasible
  unique request exactly when the request passes the checks of the quantity, of the length
  and of the composition, which come first, and \<open>qtd\<close> is above \<open>62 ^ len\<close>; a request that
  fails one of these checks gets the error of that check, whatever \<open>qtd\<close> and \<open>62 ^ len\<close>
  are. For every length from 1 to 64, \<open>total_combinacoes\<close> is the exact integer
  \<open>62 ^ len\<close>, which no machine word bounds (beyond length 10 it exceeds 64 bits). The
  message of the error holds the decimal text of \<open>qtd\<close> and the decimal text of
  \<open>62 ^ len\<close>: texts of digits whose decimal value is the number. A request that passes
  the checks with \<open>qtd\<close> at most \<open>62 ^ len\<close> raises no error.
\<close>

theorem gerar_lista_infeasible:
  "(1 \<le> len \<and> len \<le> 64 \<longrightarrow>
      total_combinacoes len = 62 ^ nat len \<and> (11 \<le> len \<longrightarrow> 2 ^ 64 < total_combinacoes len)) \<and>
   ((\<exists>p'. gerar_lista t qtd len True require_all p
            = Some (Inl (ValueError (msg_unicas qtd (62 ^ nat len) len)), p')) \<longleftrightarrow>
    1 \<le> qtd \<and> qtd \<le> 10000 \<and> 1 \<le> len \<and> len \<le> 64 \<and> (require_all \<longrightarrow> 3 \<le> len) \<and>
    62 ^ nat len < qtd) \<and>
   (1 \<le> qtd \<and> qtd \<le> 10000 \<and> 1 \<le> len \<and> len \<le> 64 \<and> (require_all \<longrightarrow> 3 \<le> len) \<and>
    qtd \<le> 62 ^ nat len \<longrightarrow>
      (\<forall>e p'. gerar_lista t qtd len True require_all p \<noteq> Some (Inl e, p'))) \<and>
   msg_unicas qtd (62 ^ nat len) len =
      ''Voc'' @ [CHR 0xC3, CHR 0xAA] @ '' solicitou '' @ str_int qtd @ '' senhas ''
      @ [CHR 0xC3, CHR 0xBA] @ ''nicas, mas s'' @ [CHR 0xC3, CHR 0xB3] @ '' existem ''
      @ str_int (62 ^ nat len) @ '' combina'' @ [CHR 0xC3, CHR 0xA7, CHR 0xC3, CHR 0xB5]
      @ ''es poss'' @ [CHR 0xC3, CHR 0xAD] @ ''veis para comprimento '' @ str_int len
      @ ''. Reduza a quantidade ou aumente o comprimento.'' \<and>
   valor_int (str_int qtd) = qtd \<and> valor_int (str_int (62 ^ nat len)) = 62 ^ nat len \<and>
   (0 \<le> qtd \<longrightarrow> set (str_int qtd) \<subseteq> set digits) \<and> set (str_int (62 ^ nat len)) \<subseteq> set digits"
proof -
  have a: "total_combinacoes len = 62 ^ nat len"
    by (simp add: total_combinacoes_def length_CHARSET)
  have b: "2 ^ 64 < total_combinacoes len" if "11 \<le> len"
  proof -
    have "(2::int) ^ 64 < 62 ^ 11" by simp
    also have "(62::int) ^ 11 \<le> 62 ^ nat len"
      using that by (intro power_increasing) simp_all
    finally show ?thesis by (simp add: a)
  qed
  have A: "1 \<le> len \<and> len \<le> 64 \<longrightarrow>
      total_combinacoes len = 62 ^ nat len \<and> (11 \<le> len \<longrightarrow> 2 ^ 64 < total_combinacoes len)"
    using a b by blast
  let ?v = "1 \<le> qtd \<and> qtd \<le> 10000 \<and> 1 \<le> len \<and> len \<le> 64 \<and> (require_all \<longrightarrow> 3 \<le> len)"
  let ?e = "ValueError (msg_unicas qtd (62 ^ nat len) len)"
  have c: "gerar_lista t qtd len True require_all p = Some (Inl ?e, p)"
    if "?v" "62 ^ nat len < qtd"
    using that by (auto simp: gerar_lista_def MIN_LENGTH_def MAX_LENGTH_def a)
  have d: "gerar_lista t qtd len True require_all p \<noteq> Some (Inl e, p')"
    if "?v" "qtd \<le> 62 ^ nat len" for e p'
    using gerar_lista_valid_no_error [of qtd len require_all True t p e p'] that by simp
  have n: "\<not> ?v \<Longrightarrow> gerar_lista t qtd len True require_all p \<noteq> Some (Inl ?e, p')" for p'
    using msg_unicas_neq [of qtd "62 ^ nat len" len]
    by (auto simp: gerar_lista_def MIN_LENGTH_def MAX_LENGTH_def)
  have B: "(\<exists>p'. gerar_lista t qtd len True require_all p = Some (Inl ?e, p')) \<longleftrightarrow>
    1 \<le> qtd \<and> qtd \<le> 10000 \<and> 1 \<le> len \<and> len \<le> 64 \<and> (require_all \<longrightarrow> 3 \<le> len) \<and>
    62 ^ nat len < qtd"
  proof
    assume "\<exists>p'. gerar_lista t qtd len True require_all p = Some (Inl ?e, p')"
    then obtain p' where g: "gerar_lista t qtd len True require_all p = Some (Inl ?e, p')" ..
    with n have v: "?v" by blast
    have "62 ^ nat len < qtd"
    proof (rule ccontr)
      assume "\<not> 62 ^ nat len < qtd"
      then have "qtd \<le> 62 ^ nat len" by simp
      from d [OF v this] g show False by blast
    qed
    with v show "1 \<le> qtd \<and> qtd \<le> 10000 \<and> 1 \<le> len \<and> len \<le> 64 \<and> (require_all \<longrightarrow> 3 \<le> len) \<and>
      62 ^ nat len < qtd" by blast
  next
    assume r: "1 \<le> qtd \<and> qtd \<le> 10000 \<and> 1 \<le> len \<and> len \<le> 64 \<and> (require_all \<longrightarrow> 3 \<le> len) \<and>
      62 ^ nat len < qtd"
    then have "?v" "62 ^ nat len < qtd" by blast+
    from c [OF this]
    show "\<exists>p'. gerar_lista t qtd len True require_all p = Some (Inl ?e, p')" ..
  qed
  have C: "1 \<le> qtd \<and> qtd \<le> 10000 \<and> 1 \<le> len \<and> len \<le> 64 \<and> (require_all \<longrightarrow> 3 \<le> len) \<and>
    qtd \<le> 62 ^ nat len \<longrightarrow>
      (\<forall>e p'. gerar_lista t qtd len True require_all p \<noteq> Some (Inl e, p'))"
    using d by blast
  have D: "0 \<le> qtd \<longrightarrow> set (str_int qtd) \<subseteq> set digits" using set_str_int by blast
  have E: "set (str_int (62 ^ nat len)) \<subseteq> set digits" by (rule set_str_int) simp
  have M: "msg_unicas qtd (62 ^ nat len) len =
      ''Voc'' @ [CHR 0xC3, CHR 0xAA] @ '' solicitou '' @ str_int qtd @ '' senhas ''
      @ [CHR 0xC3, CHR 0xBA] @ ''nicas, mas s'' @ [CHR 0xC3, CHR 0xB3] @ '' existem ''
      @ str_int (62 ^ nat len) @ '' combina'' @ [CHR 0xC3, CHR 0xA7, CHR 0xC3, CHR 0xB5]
      @ ''es poss'' @ [CHR 0xC3, CHR 0xAD] @ ''veis para comprimento '' @ str_int len
      @ ''. Reduza a quantidade ou aumente o comprimento.''"
    unfolding msg_unicas_def by (rule refl)
  show ?thesis
    by (intro conjI A B C M valor_str_int D E)
qed

theorem gerar_lista_infeasible_witness:
  "gerar_lista id 100 1 True False 0 = Some (Inl (ValueError (msg_unicas 100 (62 ^ nat 1) 1)), 0) \<and>
   (\<exists>p'. gerar_lista id 100 1 True False 0
          = Some (Inl (ValueError (msg_unicas 100 (62 ^ nat 1) 1)), p')) \<and>
   msg_unicas 100 (62 ^ nat 1) 1 =
     ''Voc'' @ [CHR 0xC3, CHR 0xAA] @ '' solicitou 100 senhas '' @ [CHR 0xC3, CHR 0xBA]
     @ ''nicas, mas s'' @ [CHR 0xC3, CHR 0xB3] @ '' existem 62 combina''
     @ [CHR 0xC3, CHR 0xA7, CHR 0xC3, CHR 0xB5] @ ''es poss'' @ [CHR 0xC3, CHR 0xAD]
     @ ''veis para comprimento 1. Reduza a quantidade ou aumente o comprimento.'' \<and>
   str_int 100 = ''100'' \<and> valor_int ''100'' = 100 \<and>
   str_int (62 ^ nat 1) = ''62'' \<and> valor_int ''62'' = 62 \<and>
   (\<forall>e p'. gerar_lista id 50 1 True False 0 \<noteq> Some (Inl e, p'))"
proof -
  note u = gerar_lista_infeasible [of 1 id 100 False 0]
  have r: "(1::int) \<le> 100 \<and> (100::int) \<le> 10000 \<and> (1::int) \<le> 1 \<and> (1::int) \<le> 64 \<and>
    (False \<longrightarrow> (3::int) \<le> 1) \<and> 62 ^ nat 1 < (100::int)" by simp
  have e: "gerar_lista id 100 1 True False 0
           = Some (Inl (ValueError (msg_unicas 100 (62 ^ nat 1) 1)), 0)" by code_simp
  have x: "\<exists>p'. gerar_lista id 100 1 True False 0
          = Some (Inl (ValueError (msg_unicas 100 (62 ^ nat 1) 1)), p')"
    by (rule u [THEN conjunct2, THEN conjunct1, THEN iffD2, OF r])
  have m: "msg_unicas 100 (62 ^ nat 1) 1 =
     ''Voc'' @ [CHR 0xC3, CHR 0xAA] @ '' solicitou 100 senhas '' @ [CHR 0xC3, CHR 0xBA]
     @ ''nicas, mas s'' @ [CHR 0xC3, CHR 0xB3] @ '' existem 62 combina''
     @ [CHR 0xC3, CHR 0xA7, CHR 0xC3, CHR 0xB5] @ ''es poss'' @ [CHR 0xC3, CHR 0xAD]
     @ ''veis para comprimento 1. Reduza a quantidade ou aumente o comprimento.''"
    by code_simp
  have s: "str_int 100 = ''100''" "str_int (62 ^ nat 1) = ''62''" by code_simp+
  have "valor_int (str_int 100) = 100"
    by (rule u [THEN conjunct2, THEN conjunct2, THEN conjunct2, THEN conjunct2, THEN conjunct1])
  then have v1: "valor_int ''100'' = 100" unfolding s .
  have "valor_int (str_int (62 ^ nat 1)) = 62 ^ nat 1"
    by (rule u [THEN conjunct2, THEN conjunct2, THEN conjunct2, THEN conjunct2, THEN conjunct2,
          THEN conjunct1])
  then have v2: "valor_int ''62'' = 62" unfolding s by simp
  note v = v1 v2
  have r': "(1::int) \<le> 50 \<and> (50::int) \<le> 10000 \<and> (1::int) \<le> 1 \<and> (1::int) \<le> 64 \<and>
    (False \<longrightarrow> (3::int) \<le> 1) \<and> (50::int) \<le> 62 ^ nat 1" by simp
  have y: "\<forall>e p'. gerar_lista id 50 1 True False 0 \<noteq> Some (Inl e, p')"
    by (rule gerar_lista_infeasible [of 1 id 50 False 0, THEN conjunct2, THEN conjunct2,
          THEN conjunct1, THEN mp, OF r'])
  from e x m s v y show ?thesis by (intro conjI)
qed

theorem gerar_lista_infeasible_counterexample:
  "(62::int) ^ nat 1 < 10001 \<and>
   gerar_lista id 10001 1 True False 0 = Some (Inl (ValueError msg_quantidade), 0) \<and>
   ValueError msg_quantidade \<noteq> ValueError (msg_unicas 10001 (62 ^ nat 1) 1)"
proof -
  have "(62::int) ^ nat 1 < 10001" by simp
  moreover have "gerar_lista id 10001 1 True False 0 = Some (Inl (ValueError msg_quantidade), 0)"
    by (simp add: gerar_lista_def)
  moreover have "ValueError msg_quantidade \<noteq> ValueError (msg_unicas 10001 (62 ^ nat 1) 1)"
    using msg_unicas_neq(3) [of 10001 "62 ^ nat 1" 1] by simp
  ultimately show ?thesis by (intro conjI)
qed







end
